theory Spec2Isabelle
  imports Main "HOL-Library.Sublist"
begin

section \<open>Python text and the string operations used by the scripts\<close>

text \<open>
  A Python \<^verbatim>\<open>str\<close> is a sequence of Unicode code points: \<open>py_str\<close> is a list of code
  point numbers, so that \<^verbatim>\<open>find\<close> and slicing count what Python counts. \<open>str\<close> turns
  an ASCII literal of the scripts into text.

  Python's \<^verbatim>\<open>old in content\<close> is the substring test, \<^term>\<open>sublist old content\<close> of the
  library: \<open>content = ps @ old @ ss\<close> for some \<open>ps\<close>, \<open>ss\<close>.

  \<^verbatim>\<open>content.replace(old, new)\<close> scans from the left and replaces every non-overlapping
  occurrence of \<open>old\<close>; with an empty \<open>old\<close> it puts \<open>new\<close> before every character and
  at the end.
\<close>

type_synonym py_str = "nat list"

definition str :: "string \<Rightarrow> py_str" where
  "str s = map of_char s"

fun replace :: "'a list \<Rightarrow> 'a list \<Rightarrow> 'a list \<Rightarrow> 'a list" where
  "replace s [] new = new @ concat (map (\<lambda>c. c # new) s)"
| "replace [] (a # as) new = []"
| "replace (c # cs) (a # as) new =
     (if prefix (a # as) (c # cs)
      then new @ replace (drop (length as) cs) (a # as) new
      else c # replace cs (a # as) new)"

text \<open>\<^verbatim>\<open>content.find(sub)\<close>: the lowest index where \<open>sub\<close> starts, or \<open>-1\<close>.\<close>

fun find_from :: "'a list \<Rightarrow> 'a list \<Rightarrow> nat \<Rightarrow> int" where
  "find_from [] sub i = (if sub = [] then int i else - 1)"
| "find_from (c # cs) sub i =
     (if prefix sub (c # cs) then int i else find_from cs sub (Suc i))"

definition str_find :: "'a list \<Rightarrow> 'a list \<Rightarrow> int" where
  "str_find s sub = find_from s sub 0"

text \<open>\<^verbatim>\<open>s[i:j]\<close>: negative indices count from the end, both are clipped to the length.\<close>

definition slice :: "'a list \<Rightarrow> int \<Rightarrow> int \<Rightarrow> 'a list" where
  "slice s i j =
     (let n = int (length s);
          lo = (if i < 0 then max 0 (i + n) else min i n);
          hi = (if j < 0 then max 0 (j + n) else min j n)
      in take (nat (hi - lo)) (drop (nat lo) s))"

text \<open>
  \<^verbatim>\<open>sep.join(pieces)\<close>. The scripts do not call it; it is used to say what
  "every occurrence is replaced" means: the content is the pieces joined by the old literal
  and the result is the same pieces joined by the new one.
\<close>

fun join :: "'a list \<Rightarrow> 'a list list \<Rightarrow> 'a list" where
  "join sep [] = []"
| "join sep [p] = p"
| "join sep (p # q # ps) = p @ sep @ join sep (q # ps)"

text \<open>
  A text is borderless when no proper non-empty prefix of it is also a suffix of it, so that
  two occurrences of it never overlap.
\<close>

definition borderless :: "'a list \<Rightarrow> bool" where
  "borderless xs = list_all (\<lambda>k. take k xs \<noteq> drop (length xs - k) xs) [1..<length xs]"

text \<open>Truth value of \<^verbatim>\<open>None\<close> or a \<^verbatim>\<open>str\<close>: false for \<^verbatim>\<open>None\<close> and for the empty string.\<close>

fun truthy :: "py_str option \<Rightarrow> bool" where
  "truthy None = False"
| "truthy (Some s) = (s \<noteq> [])"

text \<open>\<^verbatim>\<open>os.path.join(a, b)\<close> on POSIX.\<close>

definition path_join :: "py_str \<Rightarrow> py_str \<Rightarrow> py_str" where
  "path_join a b =
     (if prefix (str ''/'') b then b
      else if a = [] \<or> suffix (str ''/'') a then a @ b
      else a @ str ''/'' @ b)"


section \<open>The environment of a run\<close>

text \<open>
  What a run reads from and writes to: the home directory, the directory tree, the text
  files and standard output. An exception is represented by its message.
  \<^item> \<open>home\<close> is \<^verbatim>\<open>os.path.expanduser("~")\<close>;
  \<^item> \<open>glob pattern\<close> is the list \<^verbatim>\<open>glob.glob(pattern)\<close> returns, in its order;
  \<^item> \<open>read_text enc p\<close> is the outcome of opening \<open>p\<close> for reading in text mode with
    encoding \<open>enc\<close> and reading it whole: \<open>Inl e\<close> when that raises \<open>e\<close>, \<open>Inr content\<close>
    otherwise;
  \<^item> \<open>write_fault enc p c\<close> says whether opening \<open>p\<close> for writing with encoding \<open>enc\<close> and
    writing \<open>c\<close> raises: \<open>None\<close> when it succeeds, \<open>Some (e, r)\<close> when it raises \<open>e\<close> and
    leaves the file reading as \<open>r enc'\<close> under each encoding \<open>enc'\<close> (opening with mode
    \<^verbatim>\<open>'w'\<close> may already have truncated it);
  \<^item> \<open>reread enc enc' c\<close> is what a file written from \<open>c\<close> with \<open>enc\<close> reads as with
    another encoding \<open>enc'\<close>; with the same encoding it reads as \<open>c\<close> again (text read in
    text mode holds no carriage return, and such text is read back as written);
  \<^item> \<open>print_fault line\<close> says whether \<^verbatim>\<open>print(line)\<close> raises, for instance when
    standard output cannot encode a character of the line or is closed;
  \<^item> \<open>stdout\<close> is the list of lines printed so far.
\<close>

datatype encoding = Utf8 | Locale_default

record world =
  home :: py_str
  isdir :: "py_str \<Rightarrow> bool"
  glob :: "py_str \<Rightarrow> py_str list"
  isfile :: "py_str \<Rightarrow> bool"
  read_text :: "encoding \<Rightarrow> py_str \<Rightarrow> py_str + py_str"
  write_fault :: "encoding \<Rightarrow> py_str \<Rightarrow> py_str \<Rightarrow> (py_str \<times> (encoding \<Rightarrow> py_str + py_str)) option"
  reread :: "encoding \<Rightarrow> encoding \<Rightarrow> py_str \<Rightarrow> py_str + py_str"
  print_fault :: "py_str \<Rightarrow> py_str option"
  stdout :: "py_str list"

text \<open>\<^verbatim>\<open>print(line)\<close>: the exception it raises, if any, and the environment afterwards.\<close>

definition print :: "world \<Rightarrow> py_str \<Rightarrow> py_str option \<times> world" where
  "print w line =
     (case print_fault w line of
        None \<Rightarrow> (None, w\<lparr>stdout := stdout w @ [line]\<rparr>)
      | Some e \<Rightarrow> (Some e, w))"

text \<open>Several prints in a row: the first exception ends them.\<close>

fun prints :: "world \<Rightarrow> py_str list \<Rightarrow> py_str option \<times> world" where
  "prints w [] = (None, w)"
| "prints w (line # rest) =
     (case print w line of
        (None, w') \<Rightarrow> prints w' rest
      | (Some e, w') \<Rightarrow> (Some e, w'))"

text \<open>
  \<^verbatim>\<open>print(line); sys.exit(code)\<close> where no handler is around: an exception of the print
  ends the run with a traceback and exit status 1.
\<close>

definition print_exit :: "world \<Rightarrow> py_str \<Rightarrow> nat \<Rightarrow> nat \<times> world" where
  "print_exit w line code =
     (case print w line of
        (None, w') \<Rightarrow> (code, w')
      | (Some e, w') \<Rightarrow> (1, w'))"

text \<open>The file \<open>p\<close> after it was written with encoding \<open>enc\<close>, as each encoding reads it.\<close>

definition written :: "world \<Rightarrow> encoding \<Rightarrow> py_str \<Rightarrow> encoding \<Rightarrow> py_str + py_str" where
  "written w enc c enc' = (if enc' = enc then Inr c else reread w enc enc' c)"

definition set_file :: "world \<Rightarrow> py_str \<Rightarrow> (encoding \<Rightarrow> py_str + py_str) \<Rightarrow> world" where
  "set_file w p view = w\<lparr>read_text := (\<lambda>enc. (read_text w enc)(p := view enc))\<rparr>"

text \<open>\<^verbatim>\<open>with open(p, 'w', encoding=enc) as f: f.write(c)\<close>.\<close>

definition write_text :: "world \<Rightarrow> encoding \<Rightarrow> py_str \<Rightarrow> py_str \<Rightarrow> py_str option \<times> world" where
  "write_text w enc p c =
     (case write_fault w enc p c of
        None \<Rightarrow> (None, set_file w p (written w enc c))
      | Some (e, r) \<Rightarrow> (Some e, set_file w p r))"


section \<open>The full script: \<^verbatim>\<open>scripts/patch-provider copy.py\<close>\<close>

definition extension_dirs :: "world \<Rightarrow> py_str list" where
  "extension_dirs w =
     [path_join (home w) (str ''.vscode-remote/extensions''),
      path_join (home w) (str ''.vscode-server/extensions'')]"

definition pattern :: "py_str \<Rightarrow> py_str" where
  "pattern ext_dir = path_join ext_dir (str ''vscode-arduino.vscode-arduino-community*'')"

text \<open>The \<^verbatim>\<open>for ext_dir in extension_dirs\<close> loop of \<^verbatim>\<open>find_extension_path\<close>.\<close>

fun find_in :: "world \<Rightarrow> py_str list \<Rightarrow> py_str option" where
  "find_in w [] = None"
| "find_in w (ext_dir # rest) =
     (if isdir w ext_dir
      then (case glob w (pattern ext_dir) of
              [] \<Rightarrow> find_in w rest
            | m # _ \<Rightarrow> Some m)
      else find_in w rest)"

definition find_extension_path :: "world \<Rightarrow> py_str option" where
  "find_extension_path w = find_in w (extension_dirs w)"

definition target_file :: "py_str \<Rightarrow> py_str" where
  "target_file ext_path = path_join ext_path (str ''out/src/arduino/arduinoContentProvider.js'')"

definition old_line_v1 :: py_str where
  \<open>old_line_v1 = str ''var url = "${(yield vscode.env.asExternalUri(this._webserver.getEndpointUri(type))).toString()}?" +''\<close>

definition old_line_v2 :: py_str where
  \<open>old_line_v2 = str ''var url = "${(yield vscode.env.asExternalUri(this._webserver.getEndpointUri(type))).toString()}"; url += (url.indexOf("?") === -1 ? "?" : String.fromCharCode(38)) +''\<close>

definition new_line_v1 :: py_str where
  \<open>new_line_v1 = str ''var baseUrl = "${(yield vscode.env.asExternalUri(this._webserver.getEndpointUri(""))).toString()}"; if (baseUrl.slice(-1) !== "/") baseUrl += "/"; var url = baseUrl + "${type}?" +''\<close>

definition new_line_v2 :: py_str where
  \<open>new_line_v2 = str ''var baseUrl = "${(yield vscode.env.asExternalUri(this._webserver.getEndpointUri(""))).toString()}"; if (baseUrl.slice(-1) !== "/") baseUrl += "/"; var url = baseUrl + "${type}"; url += (url.indexOf("?") === -1 ? "?" : String.fromCharCode(38)) +''\<close>

text \<open>The literal of the "already patched" test (line 72); the script does not name it.\<close>

definition patched_marker :: py_str where
  \<open>patched_marker = str ''var baseUrl = "${(yield vscode.env.asExternalUri(this._webserver.getEndpointUri(""))).toString()}"''\<close>

definition already_patched :: py_str where
  "already_patched = str ''arduinoContentProvider.js is already patched.''"

text \<open>
  Lines 77 to 83: \<^verbatim>\<open>new_content\<close> and the line printed on the way. The \<^verbatim>\<open>elif\<close> makes
  the v2 rule run only when the v1 literal is absent.
\<close>

definition try_patch :: "py_str \<Rightarrow> py_str option \<times> py_str list" where
  "try_patch content =
     (if sublist old_line_v1 content
      then (Some (replace content old_line_v1 new_line_v1),
            [str ''Found pattern v1 (older extension version)''])
      else if sublist old_line_v2 content
      then (Some (replace content old_line_v2 new_line_v2),
            [str ''Found pattern v2 (newer extension version)''])
      else (None, []))"

text \<open>
  Lines 85 to 96. The write, the four prints and \<^verbatim>\<open>sys.exit(2)\<close> are inside the
  \<^verbatim>\<open>try\<close>: an exception of the write or of one of the prints reaches the handler, which
  prints the error and exits with 1. \<^verbatim>\<open>sys.exit(2)\<close> raises \<^verbatim>\<open>SystemExit\<close>, which
  \<^verbatim>\<open>except Exception\<close> does not catch.
\<close>

definition reload_notice :: "py_str list" where
  "reload_notice =
     [str ''Successfully patched arduinoContentProvider.js'',
      [],
      [0x26A0, 0xFE0F] @ str ''  IMPORTANT: Reload VS Code window for patch to take effect!'',
      str ''   Press Ctrl+Shift+P '' @ [0x2192] @ str '' 'Developer: Reload Window'' @ [0x27]]"

definition write_error :: "world \<Rightarrow> py_str \<Rightarrow> nat \<times> world" where
  "write_error w e = print_exit w (str ''Error writing patched file: '' @ e) 1"

definition write_back :: "world \<Rightarrow> py_str \<Rightarrow> py_str \<Rightarrow> nat \<times> world" where
  "write_back w target new_content =
     (case write_text w Utf8 target new_content of
        (Some e, w1) \<Rightarrow> write_error w1 e
      | (None, w1) \<Rightarrow>
          (case prints w1 reload_notice of
             (Some e, w2) \<Rightarrow> write_error w2 e
           | (None, w2) \<Rightarrow> (2, w2)))"

text \<open>
  Lines 97 to 108: no rule matched; an excerpt of the file is printed when it is found. The
  run ends with status 1 also when one of the prints raises.
\<close>

definition relevant_section :: "py_str \<Rightarrow> py_str list" where
  "relevant_section content =
     (if sublist (str ''window.onload = function()'') content
      then (let start = str_find content (str ''window.onload = function()'');
                end = str_find content (str ''document.getElementById('frame').src = url;'')
            in if start \<noteq> - 1 \<and> end \<noteq> - 1
               then [str ''Relevant section in file:'', slice content start (end + 50)]
               else [])
      else [])"

definition mismatch_lines :: "py_str list" where
  "mismatch_lines =
     [str ''Could not find target string to replace in arduinoContentProvider.js.'',
      str ''The extension might have been updated to a new version.'',
      []]"

definition pattern_mismatch :: "world \<Rightarrow> py_str \<Rightarrow> nat \<times> world" where
  "pattern_mismatch w content =
     (1, snd (prints w (mismatch_lines @ relevant_section content)))"

text \<open>\<^verbatim>\<open>main\<close>: the exit status and the environment the run leaves.\<close>

definition main :: "world \<Rightarrow> nat \<times> world" where
  "main w =
     (let ext_path = find_extension_path w in
      if \<not> truthy ext_path
      then print_exit w (str ''Arduino extension not found. Skipping patch.'') 0
      else
        let target = target_file (case ext_path of Some p \<Rightarrow> p | None \<Rightarrow> []) in
        if \<not> isfile w target
        then print_exit w
               (str ''Target file not found at '' @ target @ str ''. Skipping patch.'') 0
        else
          (case read_text w Utf8 target of
             Inl e \<Rightarrow> print_exit w (str ''Error reading file: '' @ e) 1
           | Inr content \<Rightarrow>
               if sublist patched_marker content
               then print_exit w already_patched 0
               else
                 (case try_patch content of
                    (new_content, found) \<Rightarrow>
                      (case prints w found of
                         (Some e, w1) \<Rightarrow> (1, w1)
                       | (None, w1) \<Rightarrow>
                           if truthy new_content
                           then write_back w1 target
                                  (case new_content of Some c \<Rightarrow> c | None \<Rightarrow> [])
                           else pattern_mismatch w1 content))))"


section \<open>The minimal script: \<^verbatim>\<open>patch_provider.py\<close>\<close>

definition file_path :: py_str where
  "file_path = str ''/home/vscode/.vscode-remote/extensions/vscode-arduino.vscode-arduino-community-0.7.2-linux-x64/out/src/arduino/arduinoContentProvider.js''"

definition old_line :: py_str where
  \<open>old_line = str ''var url = "${(yield vscode.env.asExternalUri(this._webserver.getEndpointUri(type))).toString()}"; url += (url.indexOf("?") === -1 ? "?" : String.fromCharCode(38)) +''\<close>

definition new_line :: py_str where
  \<open>new_line = str ''var baseUrl = "${(yield vscode.env.asExternalUri(this._webserver.getEndpointUri(""))).toString()}"; if (baseUrl.slice(-1) !== "/") baseUrl += "/"; var url = baseUrl + "${type}"; url += (url.indexOf("?") === -1 ? "?" : String.fromCharCode(38)) +''\<close>

text \<open>
  The script opens the file without naming an encoding, so with the locale's, and has no
  exception handler: a failing read, write or print ends it with a traceback and exit
  status 1; otherwise it ends with status 0.
\<close>

definition patch_provider :: "world \<Rightarrow> nat \<times> world" where
  "patch_provider w =
     (case read_text w Locale_default file_path of
        Inl e \<Rightarrow> (1, w)
      | Inr content \<Rightarrow>
          if sublist old_line content
          then (case write_text w Locale_default file_path
                       (replace content old_line new_line) of
                  (Some e, w1) \<Rightarrow> (1, w1)
                | (None, w1) \<Rightarrow>
                    print_exit w1 (str ''Successfully patched arduinoContentProvider.js'') 0)
          else print_exit w (str ''Could not find target string to replace'') 0)"


section \<open>Example environments\<close>

text \<open>
  A devcontainer whose remote-extensions directory holds the extension, with the given text
  in the file to patch, where every write and every print succeeds.
\<close>

definition example_dir :: py_str where
  "example_dir = str ''/home/vscode/.vscode-remote/extensions''"

definition example_ext :: py_str where
  "example_ext = str ''/home/vscode/.vscode-remote/extensions/vscode-arduino.vscode-arduino-community-0.7.2-linux-x64''"

definition example_world :: "py_str \<Rightarrow> world" where
  "example_world content =
     \<lparr>home = str ''/home/vscode'',
      isdir = (\<lambda>p. p = example_dir),
      glob = (\<lambda>p. if p = pattern example_dir then [example_ext] else []),
      isfile = (\<lambda>p. p = file_path),
      read_text = (\<lambda>enc p. if p = file_path then Inr content
                            else Inl (str ''No such file or directory'')),
      write_fault = (\<lambda>enc p c. None),
      reread = (\<lambda>enc enc' c. Inr c),
      print_fault = (\<lambda>line. None),
      stdout = []\<rparr>"

text \<open>An environment whose standard output refuses every line.\<close>

definition mute :: "world \<Rightarrow> world" where
  "mute w = w\<lparr>print_fault := (\<lambda>line. Some (str ''Broken pipe''))\<rparr>"



section \<open>Facts about the string operations\<close>

lemma join_Cons: "join sep (p # ps) = (if ps = [] then p else p @ sep @ join sep ps)"
  by (cases ps) simp_all

lemma replace_absent: "\<not> sublist old s \<Longrightarrow> replace s old new = s"
proof (induction s old new rule: replace.induct)
  case (1 s new)
  then show ?case by simp
next
  case (2 a as new)
  then show ?case by simp
next
  case (3 c cs a as new)
  from "3.prems" have np: "\<not> prefix (a # as) (c # cs)" and ns: "\<not> sublist (a # as) cs"
    by (auto simp: sublist_Cons_right)
  with "3.IH"(2) show ?case by (simp del: Cons_prefix_Cons)
qed

lemma replace_present:
  assumes "old \<noteq> []" "sublist old s"
  shows "sublist new (replace s old new)"
  using assms
proof (induction s old new rule: replace.induct)
  case (1 s new)
  then show ?case by simp
next
  case (2 a as new)
  then show ?case by simp
next
  case (3 c cs a as new)
  show ?case
  proof (cases "prefix (a # as) (c # cs)")
    case True
    then show ?thesis by (simp add: sublist_append_rightI del: Cons_prefix_Cons)
  next
    case False
    with "3.prems" have "sublist (a # as) cs"
      by (simp add: sublist_Cons_right del: Cons_prefix_Cons)
    with "3.IH"(2) [OF False] have "sublist new (replace cs (a # as) new)" by simp
    then show ?thesis using False by (simp add: sublist_Cons_right del: Cons_prefix_Cons)
  qed
qed

lemma replace_pieces:
  "old \<noteq> [] \<Longrightarrow>
   \<exists>ps. ps \<noteq> [] \<and> s = join old ps \<and> replace s old new = join new ps \<and>
        (\<forall>p \<in> set ps. \<not> sublist old p) \<and> (sublist old s \<longrightarrow> 2 \<le> length ps)"
proof (induction s old new rule: replace.induct)
  case (1 s new)
  then show ?case by simp
next
  case (2 a as new)
  show ?case by (rule exI [of _ "[[]]"]) simp
next
  case (3 c cs a as new)
  let ?old = "a # as"
  show ?case
  proof (cases "prefix ?old (c # cs)")
    case True
    then have split: "c # cs = ?old @ drop (length as) cs"
      by (auto simp: prefix_def)
    from "3.IH"(1) [OF True] obtain ps where ps: "ps \<noteq> []"
      "drop (length as) cs = join ?old ps"
      "replace (drop (length as) cs) ?old new = join new ps"
      "\<forall>p \<in> set ps. \<not> sublist ?old p"
      by auto
    show ?thesis
    proof (rule exI [of _ "[] # ps"], intro conjI)
      show "c # cs = join ?old ([] # ps)"
        using ps(1,2) split by (simp add: join_Cons)
      show "replace (c # cs) ?old new = join new ([] # ps)"
        using True ps(1,3) by (simp add: join_Cons del: Cons_prefix_Cons)
      show "\<forall>p \<in> set ([] # ps). \<not> sublist ?old p"
        using ps(4) by simp
      show "sublist ?old (c # cs) \<longrightarrow> 2 \<le> length ([] # ps)"
        using ps(1) by (cases ps) simp_all
    qed simp
  next
    case False
    from "3.IH"(2) [OF False] obtain ps where ps: "ps \<noteq> []"
      "cs = join ?old ps"
      "replace cs ?old new = join new ps"
      "\<forall>p \<in> set ps. \<not> sublist ?old p"
      "sublist ?old cs \<longrightarrow> 2 \<le> length ps"
      by auto
    from ps(1) obtain p qs where pq: "ps = p # qs" by (cases ps) auto
    have cs_eq: "cs = p @ (if qs = [] then [] else ?old @ join ?old qs)"
      using ps(2) pq by (simp add: join_Cons)
    have nop: "\<not> sublist ?old (c # p)"
    proof
      assume "sublist ?old (c # p)"
      then have "prefix ?old (c # p) \<or> sublist ?old p"
        by (simp add: sublist_Cons_right)
      moreover have "\<not> sublist ?old p" using ps(4) pq by simp
      ultimately have "prefix ?old (c # p)" by blast
      then have "prefix ?old ((c # p) @ (if qs = [] then [] else ?old @ join ?old qs))"
        using prefix_prefix by blast
      with cs_eq have "prefix ?old (c # cs)" by simp
      with False show False by blast
    qed
    show ?thesis
    proof (rule exI [of _ "(c # p) # qs"], intro conjI)
      show "c # cs = join ?old ((c # p) # qs)"
        using ps(2) pq by (simp add: join_Cons)
      show "replace (c # cs) ?old new = join new ((c # p) # qs)"
        using False ps(3) pq by (simp add: join_Cons del: Cons_prefix_Cons)
      show "\<forall>q \<in> set ((c # p) # qs). \<not> sublist ?old q"
        using ps(4) pq nop by simp
      show "sublist ?old (c # cs) \<longrightarrow> 2 \<le> length ((c # p) # qs)"
        using False ps(5) pq by (simp add: sublist_Cons_right del: Cons_prefix_Cons)
    qed simp
  qed
qed

lemma replace_prefix_step:
  "old \<noteq> [] \<Longrightarrow> replace (old @ s) old new = new @ replace s old new"
  by (cases old) simp_all

lemma replace_skip_step:
  "old \<noteq> [] \<Longrightarrow> \<not> prefix old (c # cs) \<Longrightarrow> replace (c # cs) old new = c # replace cs old new"
  by (cases old) (simp_all del: Cons_prefix_Cons)

text \<open>A prefix of \<open>pre @ old @ post\<close> that is \<open>old\<close> itself, starting inside a non-empty
  \<open>pre\<close> that does not contain \<open>old\<close>, would make \<open>old\<close> overlap itself.\<close>

lemma borderlessD:
  assumes "borderless xs" "0 < k" "k < length xs"
  shows "take k xs \<noteq> drop (length xs - k) xs"
  using assms by (simp add: borderless_def list_all_iff)

lemma no_early_match:
  assumes bl: "borderless old" and ne: "pre \<noteq> []"
    and np: "\<not> sublist old pre"
  shows "\<not> prefix old (pre @ old @ post)"
proof
  assume pf: "prefix old (pre @ old @ post)"
  show False
  proof (cases "length old \<le> length pre")
    case True
    have "take (length old) (pre @ old @ post) = old"
      using pf by (metis append_eq_conv_conj prefix_def)
    with True have "take (length old) pre = old" by simp
    then have "prefix old pre" by (metis take_is_prefix)
    with np show False by blast
  next
    case False
    define k where "k = length old - length pre"
    from ne have "length pre \<noteq> 0" by simp
    with False have k: "0 < k" "k < length old" unfolding k_def by arith+
    have t: "take (length old) (pre @ old @ post) = old"
      using pf by (metis append_eq_conv_conj prefix_def)
    from False have "take (length old) (pre @ old @ post) = pre @ take k old"
      by (simp add: k_def)
    with t have eq: "old = pre @ take k old" by simp
    have "length pre = length old - k" using False by (simp add: k_def)
    with eq have "drop (length old - k) old = take k old"
      by (metis append_eq_conv_conj)
    with borderlessD [OF bl k] show False by simp
  qed
qed

lemma replace_single:
  assumes bl: "borderless old" and ne: "old \<noteq> []"
    and np: "\<not> sublist old pre" and ns: "\<not> sublist old post"
  shows "replace (pre @ old @ post) old new = pre @ new @ post"
  using np
proof (induction pre)
  case Nil
  show ?case using ne ns by (simp add: replace_prefix_step replace_absent)
next
  case (Cons c pre)
  from Cons.prems have np': "\<not> sublist old pre"
    by (simp add: sublist_Cons_right)
  have "\<not> prefix old ((c # pre) @ old @ post)"
    by (rule no_early_match [OF bl _ Cons.prems]) simp
  then have "replace ((c # pre) @ old @ post) old new = c # replace (pre @ old @ post) old new"
    using ne by (simp add: replace_skip_step)
  with Cons.IH [OF np'] show ?case by simp
qed

section \<open>Facts about the literals\<close>

text \<open>\<open>str\<close> is injective, so substring facts about literals are facts about their
  characters.\<close>

lemma str_eq_iff: "str a = str b \<longleftrightarrow> a = b"
proof -
  have "inj (of_char :: char \<Rightarrow> nat)" by (rule inj_of_char)
  then show ?thesis unfolding str_def by (rule inj_map_eq_map)
qed

lemma sublist_str: "sublist (str a) (str b) \<longleftrightarrow> sublist a b"
proof
  assume "sublist (str a) (str b)"
  then have "\<exists>a'. sublist a' b \<and> str a = map of_char a'"
    unfolding str_def by (rule sublist_map_rightE)
  then obtain a' where a': "sublist a' b" "str a = map of_char a'"
    by blast
  from a'(2) have "a = a'" using str_eq_iff [of a a'] by (simp add: str_def)
  with a'(1) show "sublist a b" by simp
next
  assume "sublist a b"
  then show "sublist (str a) (str b)" unfolding str_def by (rule map_mono_sublist)
qed

lemma borderless_str: "borderless (str a) \<longleftrightarrow> borderless a"
proof -
  have "take k (str a) = drop (length (str a) - k) (str a) \<longleftrightarrow>
        take k a = drop (length a - k) a" for k
    using str_eq_iff [of "take k a" "drop (length a - k) a"]
    by (simp add: str_def take_map drop_map)
  then show ?thesis by (simp add: borderless_def str_def)
qed

lemma str_nonempty: "a \<noteq> [] \<Longrightarrow> str a \<noteq> []"
  by (simp add: str_def)

lemma old_line_v1_nonempty: "old_line_v1 \<noteq> []"
  unfolding old_line_v1_def by (rule str_nonempty) simp

lemma old_line_v2_nonempty: "old_line_v2 \<noteq> []"
  unfolding old_line_v2_def by (rule str_nonempty) simp

lemma marker_nonempty: "patched_marker \<noteq> []"
  unfolding patched_marker_def by (rule str_nonempty) simp

lemma marker_in_new_v1: "sublist patched_marker new_line_v1"
  unfolding patched_marker_def new_line_v1_def sublist_str by code_simp

lemma marker_in_new_v2: "sublist patched_marker new_line_v2"
  unfolding patched_marker_def new_line_v2_def sublist_str by code_simp

lemma marker_notin_old_v1: "\<not> sublist patched_marker old_line_v1"
  unfolding patched_marker_def old_line_v1_def sublist_str by code_simp

lemma marker_notin_old_v2: "\<not> sublist patched_marker old_line_v2"
  unfolding patched_marker_def old_line_v2_def sublist_str by code_simp

lemma v1_notin_v2: "\<not> sublist old_line_v1 old_line_v2"
  unfolding old_line_v1_def old_line_v2_def sublist_str by code_simp

lemma v2_notin_v1: "\<not> sublist old_line_v2 old_line_v1"
  unfolding old_line_v1_def old_line_v2_def sublist_str by code_simp

lemma v1_notin_new_v1: "\<not> sublist old_line_v1 new_line_v1"
  unfolding old_line_v1_def new_line_v1_def sublist_str by code_simp

lemma v2_notin_new_v2: "\<not> sublist old_line_v2 new_line_v2"
  unfolding old_line_v2_def new_line_v2_def sublist_str by code_simp

lemma borderless_v1: "borderless old_line_v1"
  unfolding old_line_v1_def borderless_str by code_simp

lemma borderless_v2: "borderless old_line_v2"
  unfolding old_line_v2_def borderless_str by code_simp

lemma old_line_eq: "old_line = old_line_v2"
  by (simp add: old_line_def old_line_v2_def)

lemma new_line_eq: "new_line = new_line_v2"
  by (simp add: new_line_def new_line_v2_def)

lemma sublist_trans: "sublist xs ys \<Longrightarrow> sublist ys zs \<Longrightarrow> sublist xs zs"
  by (rule sublist_order.order.trans)

lemma marker_after_v1:
  "sublist old_line_v1 s \<Longrightarrow> sublist patched_marker (replace s old_line_v1 new_line_v1)"
  by (rule sublist_trans [OF marker_in_new_v1 replace_present [OF old_line_v1_nonempty]])

lemma marker_after_v2:
  "sublist old_line_v2 s \<Longrightarrow> sublist patched_marker (replace s old_line_v2 new_line_v2)"
  by (rule sublist_trans [OF marker_in_new_v2 replace_present [OF old_line_v2_nonempty]])

section \<open>Facts about printing and writing\<close>

lemma print_ok:
  "print_fault w line = None \<Longrightarrow> print w line = (None, w\<lparr>stdout := stdout w @ [line]\<rparr>)"
  by (simp add: print_def)

lemma print_frame: "snd (print w line) = w\<lparr>stdout := stdout (snd (print w line))\<rparr>"
  by (cases "print_fault w line") (simp_all add: print_def)

lemma prints_frame: "snd (prints w ls) = w\<lparr>stdout := stdout (snd (prints w ls))\<rparr>"
proof (induction ls arbitrary: w)
  case Nil
  show ?case by simp
next
  case (Cons l ls)
  show ?case
  proof (cases "print_fault w l")
    case None
    then have step: "prints w (l # ls) = prints (w\<lparr>stdout := stdout w @ [l]\<rparr>) ls"
      by (simp add: print_def)
    have "snd (prints (w\<lparr>stdout := stdout w @ [l]\<rparr>) ls) =
          w\<lparr>stdout := stdout w @ [l]\<rparr>
            \<lparr>stdout := stdout (snd (prints (w\<lparr>stdout := stdout w @ [l]\<rparr>) ls))\<rparr>"
      by (rule Cons.IH)
    with step show ?thesis by simp
  next
    case (Some e)
    then show ?thesis by (simp add: print_def)
  qed
qed

lemma print_exit_frame:
  "snd (print_exit w line code) = w\<lparr>stdout := stdout (snd (print_exit w line code))\<rparr>"
  by (cases "print_fault w line") (simp_all add: print_exit_def print_def)

lemma print_exit_ok:
  "print_fault w line = None \<Longrightarrow>
   print_exit w line code = (code, w\<lparr>stdout := stdout w @ [line]\<rparr>)"
  by (simp add: print_exit_def print_ok)

lemma print_exit_fault:
  "print_fault w line = Some e \<Longrightarrow> print_exit w line code = (1, w)"
  by (simp add: print_exit_def print_def)

lemma prints_ok:
  "print_fault w = (\<lambda>line. None) \<Longrightarrow> prints w ls = (None, w\<lparr>stdout := stdout w @ ls\<rparr>)"
proof (induction ls arbitrary: w)
  case Nil
  then show ?case by simp
next
  case (Cons l ls)
  from Cons.prems have p: "print w l = (None, w\<lparr>stdout := stdout w @ [l]\<rparr>)"
    by (simp add: print_ok)
  have "print_fault (w\<lparr>stdout := stdout w @ [l]\<rparr>) = (\<lambda>line. None)"
    using Cons.prems by simp
  from Cons.IH [OF this] p show ?case by simp
qed

lemma pattern_mismatch_exit: "fst (pattern_mismatch w content) = 1"
  by (simp add: pattern_mismatch_def)

lemma pattern_mismatch_frame:
  "snd (pattern_mismatch w content) =
   w\<lparr>stdout := stdout (snd (pattern_mismatch w content))\<rparr>"
  unfolding pattern_mismatch_def snd_conv by (rule prints_frame)

lemma pattern_mismatch_ok:
  "print_fault w = (\<lambda>line. None) \<Longrightarrow>
   pattern_mismatch w content =
     (1, w\<lparr>stdout := stdout w @ mismatch_lines @ relevant_section content\<rparr>)"
  by (simp add: pattern_mismatch_def prints_ok)

lemma write_back_ok:
  assumes "write_fault w Utf8 t nc = None" "print_fault w = (\<lambda>line. None)"
  shows "write_back w t nc =
     (2, (set_file w t (written w Utf8 nc))\<lparr>stdout := stdout w @ reload_notice\<rparr>)"
proof -
  have wt: "write_text w Utf8 t nc = (None, set_file w t (written w Utf8 nc))"
    using assms(1) by (simp add: write_text_def)
  have "print_fault (set_file w t (written w Utf8 nc)) = (\<lambda>line. None)"
    using assms(2) by (simp add: set_file_def)
  from prints_ok [OF this, of reload_notice] wt show ?thesis
    by (simp add: write_back_def set_file_def)
qed

lemma write_back_fault:
  assumes "write_fault w Utf8 t nc = Some (e, r)"
  shows "fst (write_back w t nc) = 1"
proof -
  have wt: "write_text w Utf8 t nc = (Some e, set_file w t r)"
    using assms by (simp add: write_text_def)
  then have "write_back w t nc = write_error (set_file w t r) e"
    by (simp add: write_back_def)
  then show ?thesis
    by (simp add: write_error_def print_exit_def split: prod.splits option.splits)
qed

lemma write_back_exit: "fst (write_back w t nc) = 1 \<or> fst (write_back w t nc) = 2"
  by (auto simp: write_back_def write_error_def print_exit_def
           split: prod.splits option.splits)

section \<open>Facts about the run\<close>

lemma find_in_cong:
  "isdir w' = isdir w \<Longrightarrow> glob w' = glob w \<Longrightarrow> find_in w' ds = find_in w ds"
  by (induction ds) (simp_all split: list.splits)

lemma find_extension_path_cong:
  assumes "home w' = home w" "isdir w' = isdir w" "glob w' = glob w"
  shows "find_extension_path w' = find_extension_path w"
  unfolding find_extension_path_def extension_dirs_def assms(1)
  by (rule find_in_cong [OF assms(2,3)])

lemma find_extension_path_stdout:
  "find_extension_path (w\<lparr>stdout := out\<rparr>) = find_extension_path w"
  by (rule find_extension_path_cong) simp_all

lemma find_extension_path_set_file:
  "find_extension_path (set_file w p v) = find_extension_path w"
  by (rule find_extension_path_cong) (simp_all add: set_file_def)

lemma try_patch_marker:
  assumes "fst (try_patch content) = Some nc"
  shows "sublist patched_marker nc"
proof (cases "sublist old_line_v1 content")
  case True
  with assms have "nc = replace content old_line_v1 new_line_v1"
    by (simp add: try_patch_def)
  with True show ?thesis by (simp add: marker_after_v1)
next
  case False
  show ?thesis
  proof (cases "sublist old_line_v2 content")
    case True
    with False assms have "nc = replace content old_line_v2 new_line_v2"
      by (simp add: try_patch_def)
    with True show ?thesis by (simp add: marker_after_v2)
  next
    case no2: False
    with False assms show ?thesis by (simp add: try_patch_def)
  qed
qed

lemma try_patch_nonempty: "fst (try_patch content) = Some nc \<Longrightarrow> nc \<noteq> []"
  using try_patch_marker [of content nc] marker_nonempty by auto

lemma try_patch_None:
  "fst (try_patch content) = None \<longleftrightarrow>
   \<not> sublist old_line_v1 content \<and> \<not> sublist old_line_v2 content"
  by (simp add: try_patch_def)

lemma try_patch_None_found: "fst (try_patch content) = None \<Longrightarrow> snd (try_patch content) = []"
  by (simp add: try_patch_def split: if_splits)

lemma main_not_found:
  "\<not> truthy (find_extension_path w) \<Longrightarrow>
   main w = print_exit w (str ''Arduino extension not found. Skipping patch.'') 0"
  by (simp add: main_def)

lemma main_target_missing:
  assumes "find_extension_path w = Some ext" "ext \<noteq> []" "\<not> isfile w (target_file ext)"
  shows "main w =
     print_exit w (str ''Target file not found at '' @ target_file ext
                    @ str ''. Skipping patch.'') 0"
  using assms by (simp add: main_def)

lemma main_read_error:
  assumes "find_extension_path w = Some ext" "ext \<noteq> []" "isfile w (target_file ext)"
    "read_text w Utf8 (target_file ext) = Inl e"
  shows "main w = print_exit w (str ''Error reading file: '' @ e) 1"
  using assms by (simp add: main_def)

lemma main_already:
  assumes "find_extension_path w = Some ext" "ext \<noteq> []" "isfile w (target_file ext)"
    "read_text w Utf8 (target_file ext) = Inr content" "sublist patched_marker content"
  shows "main w = print_exit w already_patched 0"
  using assms by (simp add: main_def)

lemma main_unpatched:
  assumes "find_extension_path w = Some ext" "ext \<noteq> []" "isfile w (target_file ext)"
    "read_text w Utf8 (target_file ext) = Inr content" "\<not> sublist patched_marker content"
  shows "main w =
     (case prints w (snd (try_patch content)) of
        (Some e, w1) \<Rightarrow> (1, w1)
      | (None, w1) \<Rightarrow>
          (case fst (try_patch content) of
             Some nc \<Rightarrow> write_back w1 (target_file ext) nc
           | None \<Rightarrow> pattern_mismatch w1 content))"
proof -
  obtain new_content found where tp: "try_patch content = (new_content, found)"
    by (cases "try_patch content")
  show ?thesis
  proof (cases new_content)
    case None
    with tp assms show ?thesis
      by (simp add: main_def split: prod.splits option.splits)
  next
    case (Some nc)
    with tp have "fst (try_patch content) = Some nc" by simp
    then have "nc \<noteq> []" by (rule try_patch_nonempty)
    with Some tp assms show ?thesis
      by (simp add: main_def split: prod.splits option.splits)
  qed
qed

lemma main_mismatch:
  assumes "find_extension_path w = Some ext" "ext \<noteq> []" "isfile w (target_file ext)"
    "read_text w Utf8 (target_file ext) = Inr content" "\<not> sublist patched_marker content"
    "\<not> sublist old_line_v1 content" "\<not> sublist old_line_v2 content"
  shows "main w = pattern_mismatch w content"
proof -
  from assms(6,7) have "try_patch content = (None, [])" by (simp add: try_patch_def)
  with main_unpatched [OF assms(1-5)] show ?thesis by simp
qed

lemma main_rule:
  assumes "find_extension_path w = Some ext" "ext \<noteq> []" "isfile w (target_file ext)"
    "read_text w Utf8 (target_file ext) = Inr content" "\<not> sublist patched_marker content"
    "fst (try_patch content) = Some nc" "print_fault w = (\<lambda>line. None)"
  shows "main w =
     write_back (w\<lparr>stdout := stdout w @ snd (try_patch content)\<rparr>) (target_file ext) nc"
  using main_unpatched [OF assms(1-5)] assms(6) prints_ok [OF assms(7)] by simp

lemma main_patched:
  assumes "find_extension_path w = Some ext" "ext \<noteq> []" "isfile w (target_file ext)"
    "read_text w Utf8 (target_file ext) = Inr content" "\<not> sublist patched_marker content"
    "fst (try_patch content) = Some nc" "print_fault w = (\<lambda>line. None)"
    "write_fault w Utf8 (target_file ext) nc = None"
  shows "fst (main w) = 2"
    and "read_text (snd (main w)) Utf8 (target_file ext) = Inr nc"
    and "snd (main w) =
           (set_file w (target_file ext) (written w Utf8 nc))
             \<lparr>stdout := stdout w @ snd (try_patch content) @ reload_notice\<rparr>"
proof -
  let ?w = "w\<lparr>stdout := stdout w @ snd (try_patch content)\<rparr>"
  have "write_back ?w (target_file ext) nc =
     (2, (set_file ?w (target_file ext) (written ?w Utf8 nc))
           \<lparr>stdout := stdout ?w @ reload_notice\<rparr>)"
    by (rule write_back_ok) (use assms(7,8) in simp_all)
  with main_rule [OF assms(1-7)]
  have m: "main w = (2, (set_file ?w (target_file ext) (written ?w Utf8 nc))
           \<lparr>stdout := stdout ?w @ reload_notice\<rparr>)" by simp
  show "fst (main w) = 2" using m by simp
  show "read_text (snd (main w)) Utf8 (target_file ext) = Inr nc"
    using m by (simp add: set_file_def written_def)
  show "snd (main w) =
           (set_file w (target_file ext) (written w Utf8 nc))
             \<lparr>stdout := stdout w @ snd (try_patch content) @ reload_notice\<rparr>"
    using m by (simp add: set_file_def written_def fun_eq_iff)
qed

lemma main_exit_range: "fst (main w) = 0 \<or> fst (main w) = 1 \<or> fst (main w) = 2"
  using write_back_exit
  by (auto simp: main_def print_exit_def pattern_mismatch_def Let_def
           split: prod.splits option.splits sum.splits)

section \<open>Facts about the example environments\<close>

lemma str_append: "str a @ str b = str (a @ b)"
  by (simp add: str_def)

lemma ex_find: "find_extension_path (example_world c) = Some example_ext"
  by (simp add: find_extension_path_def extension_dirs_def example_world_def example_dir_def
        example_ext_def pattern_def path_join_def str_def suffix_to_prefix)

lemma ex_ext_nonempty: "example_ext \<noteq> []"
  by (simp add: example_ext_def str_def)

lemma ex_target: "target_file example_ext = file_path"
  by (simp add: target_file_def example_ext_def file_path_def path_join_def str_def suffix_to_prefix)

lemma ex_isfile: "isfile (example_world c) (target_file example_ext)"
  by (simp add: ex_target example_world_def)

lemma ex_read: "read_text (example_world c) enc (target_file example_ext) = Inr c"
  by (simp add: ex_target example_world_def)

lemma ex_print: "print_fault (example_world c) = (\<lambda>line. None)"
  by (simp add: example_world_def)

lemma ex_write: "write_fault (example_world c) enc p x = None"
  by (simp add: example_world_def)

lemma ex_stdout: "stdout (example_world c) = []"
  by (simp add: example_world_def)

lemma mute_find: "find_extension_path (mute w) = find_extension_path w"
  by (rule find_extension_path_cong) (simp_all add: mute_def)

lemma mute_print: "print_fault (mute w) line = Some (str ''Broken pipe'')"
  by (simp add: mute_def)



section \<open>The marker and the literals\<close>

text \<open>
  C9, as stated: the marker check never fires on unpatched content. This fails: a content
  made of the marker text followed by the v2 legacy line holds a legacy line and neither
  replacement literal, and the run stops at the check as "already patched", exit status 0,
  leaving the file as it is.
\<close>

theorem marker_check_fires_counterexample:
  "sublist old_line_v2 (patched_marker @ old_line_v2) \<and>
   \<not> sublist new_line_v1 (patched_marker @ old_line_v2) \<and>
   \<not> sublist new_line_v2 (patched_marker @ old_line_v2) \<and>
   main (example_world (patched_marker @ old_line_v2)) =
     (0, (example_world (patched_marker @ old_line_v2))\<lparr>stdout := [already_patched]\<rparr>)"
proof -
  let ?c = "patched_marker @ old_line_v2"
  have n1: "\<not> sublist new_line_v1 ?c"
    unfolding patched_marker_def old_line_v2_def new_line_v1_def str_append sublist_str
    by code_simp
  have n2: "\<not> sublist new_line_v2 ?c"
    unfolding patched_marker_def old_line_v2_def new_line_v2_def str_append sublist_str
    by code_simp
  have m: "sublist patched_marker ?c" by simp
  have "main (example_world ?c) = print_exit (example_world ?c) already_patched 0"
    by (rule main_already [OF ex_find ex_ext_nonempty ex_isfile ex_read m])
  then have "main (example_world ?c) =
      (0, (example_world ?c)\<lparr>stdout := [already_patched]\<rparr>)"
    by (simp add: print_exit_ok ex_print ex_stdout)
  with n1 n2 show ?thesis by simp
qed

text \<open>
  C9, amended. The marker is a substring of both replacement literals and of neither legacy
  literal. So whichever rule \<open>try_patch\<close> applies, the new content holds the marker; a run
  on a file whose content holds the marker stops as "already patched" with status 0 and
  changes nothing but standard output; and a run on content without the marker, such as a
  legacy line alone, never ends with status 0. The check looks at the marker only.
\<close>

theorem marker_check_detects_patched:
  assumes "find_extension_path w = Some ext" "ext \<noteq> []" "isfile w (target_file ext)"
    and "read_text w Utf8 (target_file ext) = Inr content"
    and "print_fault w already_patched = None"
  shows "sublist patched_marker new_line_v1 \<and> sublist patched_marker new_line_v2 \<and>
         \<not> sublist patched_marker old_line_v1 \<and> \<not> sublist patched_marker old_line_v2 \<and>
         (fst (try_patch c) = Some nc \<longrightarrow> sublist patched_marker nc) \<and>
         (sublist patched_marker content \<longrightarrow>
            main w = (0, w\<lparr>stdout := stdout w @ [already_patched]\<rparr>)) \<and>
         (\<not> sublist patched_marker content \<longrightarrow> fst (main w) \<noteq> 0)"
proof -
  have fires: "main w = (0, w\<lparr>stdout := stdout w @ [already_patched]\<rparr>)"
    if "sublist patched_marker content"
    using main_already [OF assms(1-4) that] assms(5) by (simp add: print_exit_ok)
  have silent: "fst (main w) \<noteq> 0" if no: "\<not> sublist patched_marker content"
  proof -
    have "fst (write_back w1 (target_file ext) x) \<noteq> 0" for w1 x
      using write_back_exit [of w1 "target_file ext" x] by auto
    then show ?thesis
      unfolding main_unpatched [OF assms(1-4) no]
      by (simp add: pattern_mismatch_exit split: prod.splits option.splits)
  qed
  from fires silent show ?thesis
    using marker_in_new_v1 marker_in_new_v2 marker_notin_old_v1 marker_notin_old_v2
      try_patch_marker [of c nc]
    by blast
qed

theorem marker_check_detects_patched_witness:
  "sublist patched_marker new_line_v1 \<and>
   main (example_world new_line_v1) =
     (0, (example_world new_line_v1)\<lparr>stdout := [already_patched]\<rparr>) \<and>
   \<not> sublist patched_marker old_line_v1 \<and>
   fst (main (example_world old_line_v1)) \<noteq> 0"
proof -
  have p: "print_fault (example_world c) already_patched = None" for c
    by (simp add: ex_print)
  from marker_check_detects_patched [OF ex_find ex_ext_nonempty ex_isfile ex_read p,
      of new_line_v1]
  have a: "sublist patched_marker new_line_v1"
    and b: "main (example_world new_line_v1) =
      (0, (example_world new_line_v1)\<lparr>stdout := stdout (example_world new_line_v1) @ [already_patched]\<rparr>)"
    by blast+
  from marker_check_detects_patched [OF ex_find ex_ext_nonempty ex_isfile ex_read p,
      of old_line_v1]
  have c: "\<not> sublist patched_marker old_line_v1"
    and d: "fst (main (example_world old_line_v1)) \<noteq> 0"
    by blast+
  from a b c d show ?thesis by (simp add: ex_stdout)
qed

text \<open>
  C10. The minimal script and the v2 branch of the full script perform the same
  substitution. On a file whose content holds the v2 legacy literal, the minimal script
  \<open>patch_provider\<close> leaves the file holding that content with every v2 legacy line replaced
  by the v2 replacement, which is the new content \<open>try_patch\<close> of the full script produces
  in its v2 branch (reached when the v1 literal is absent); the old and new literals of the
  two scripts are the same texts.
\<close>

theorem minimal_script_is_v2_rule:
  assumes "read_text w Locale_default file_path = Inr content"
    and "sublist old_line_v2 content"
    and "write_fault w Locale_default file_path
           (replace content old_line_v2 new_line_v2) = None"
  shows "read_text (snd (patch_provider w)) Locale_default file_path =
           Inr (replace content old_line_v2 new_line_v2) \<and>
         (\<not> sublist old_line_v1 content \<longrightarrow>
            fst (try_patch content) = Some (replace content old_line_v2 new_line_v2)) \<and>
         old_line = old_line_v2 \<and> new_line = new_line_v2"
proof -
  let ?nc = "replace content old_line_v2 new_line_v2"
  let ?w1 = "set_file w file_path (written w Locale_default ?nc)"
  let ?done = "str ''Successfully patched arduinoContentProvider.js''"
  have wt: "write_text w Locale_default file_path ?nc = (None, ?w1)"
    using assms(3) by (simp add: write_text_def)
  have "patch_provider w = print_exit ?w1 ?done 0"
    using assms(1,2) wt by (simp add: patch_provider_def old_line_eq new_line_eq)
  then have "snd (patch_provider w) = ?w1\<lparr>stdout := stdout (snd (patch_provider w))\<rparr>"
    using print_exit_frame [of ?w1 ?done 0] by simp
  then have "read_text (snd (patch_provider w)) = read_text ?w1"
    by (metis world.select_convs(5) world.surjective world.update_convs(9))
  then have "read_text (snd (patch_provider w)) Locale_default file_path = Inr ?nc"
    by (simp add: set_file_def written_def)
  moreover have "fst (try_patch content) = Some ?nc" if "\<not> sublist old_line_v1 content"
    using that assms(2) by (simp add: try_patch_def)
  ultimately show ?thesis by (simp add: old_line_eq new_line_eq)
qed

theorem minimal_script_is_v2_rule_witness:
  "sublist old_line_v2 (str ''a'' @ old_line_v2 @ str ''b'') \<and>
   read_text (snd (patch_provider (example_world (str ''a'' @ old_line_v2 @ str ''b''))))
     Locale_default file_path =
     Inr (replace (str ''a'' @ old_line_v2 @ str ''b'') old_line_v2 new_line_v2)"
proof -
  let ?c = "str ''a'' @ old_line_v2 @ str ''b''"
  have r: "read_text (example_world ?c) Locale_default file_path = Inr ?c"
    using ex_read [of ?c Locale_default] by (simp add: ex_target)
  have s: "sublist old_line_v2 ?c" by (rule sublist_appendI)
  show ?thesis
    using s minimal_script_is_v2_rule [OF r s ex_write] by blast
qed

text \<open>
  C8, as stated: no content contains both legacy literals. This fails: the two literals
  written one after the other form a content that contains both.
\<close>

theorem both_rules_match_counterexample:
  "sublist old_line_v1 (old_line_v1 @ old_line_v2) \<and>
   sublist old_line_v2 (old_line_v1 @ old_line_v2)"
  by simp

text \<open>
  C8, amended. The two legacy literals exclude each other at any one place: neither occurs
  inside the other and no text starts with both. A content may still hold both at different
  places; then the \<^verbatim>\<open>elif\<close> lets only the v1 rule run.
\<close>

theorem legacy_literals_exclusive_at_a_place:
  "\<not> sublist old_line_v1 old_line_v2 \<and> \<not> sublist old_line_v2 old_line_v1 \<and>
   \<not> (prefix old_line_v1 s \<and> prefix old_line_v2 s) \<and>
   (sublist old_line_v1 content \<longrightarrow>
      fst (try_patch content) = Some (replace content old_line_v1 new_line_v1))"
proof -
  have "\<not> (prefix old_line_v1 s \<and> prefix old_line_v2 s)"
  proof
    assume "prefix old_line_v1 s \<and> prefix old_line_v2 s"
    then have "prefix old_line_v1 old_line_v2 \<or> prefix old_line_v2 old_line_v1"
      by (metis prefix_same_cases)
    then have "sublist old_line_v1 old_line_v2 \<or> sublist old_line_v2 old_line_v1"
      by (metis prefix_imp_sublist)
    with v1_notin_v2 v2_notin_v1 show False by blast
  qed
  with v1_notin_v2 v2_notin_v1 show ?thesis
    by (simp add: try_patch_def)
qed

theorem legacy_literals_exclusive_at_a_place_witness:
  "sublist old_line_v1 (old_line_v1 @ old_line_v2) \<and>
   sublist old_line_v2 (old_line_v1 @ old_line_v2) \<and>
   \<not> (prefix old_line_v1 (old_line_v1 @ old_line_v2) \<and>
        prefix old_line_v2 (old_line_v1 @ old_line_v2)) \<and>
   fst (try_patch (old_line_v1 @ old_line_v2)) =
     Some (replace (old_line_v1 @ old_line_v2) old_line_v1 new_line_v1)"
  using legacy_literals_exclusive_at_a_place
          [of "old_line_v1 @ old_line_v2" "old_line_v1 @ old_line_v2"]
  by simp

section \<open>The match-and-replace step\<close>

text \<open>
  C4. \<open>try_patch\<close> (lines 77 to 83) tries the v1 literal first. When it occurs in the
  content, the content is a list of two or more pieces joined by the v1 old literal, none of
  the pieces holds the literal, and the new content is the same pieces joined by the v1 new
  literal: every occurrence is replaced, and the v2 rule is not tried (the pieces are left
  as they are, only the v1 line is printed as found). When the v1 literal is absent and the
  v2 literal occurs, the same holds with the v2 literals. When neither occurs there is no
  new content. Neither old literal can overlap itself, so the occurrences are exactly the
  places between the pieces.
\<close>

theorem try_patch_first_match:
  "(sublist old_line_v1 content \<longrightarrow>
      (\<exists>ps. 2 \<le> length ps \<and> content = join old_line_v1 ps \<and>
            (\<forall>p \<in> set ps. \<not> sublist old_line_v1 p) \<and>
            try_patch content =
              (Some (join new_line_v1 ps), [str ''Found pattern v1 (older extension version)'']))) \<and>
   (\<not> sublist old_line_v1 content \<and> sublist old_line_v2 content \<longrightarrow>
      (\<exists>ps. 2 \<le> length ps \<and> content = join old_line_v2 ps \<and>
            (\<forall>p \<in> set ps. \<not> sublist old_line_v2 p) \<and>
            try_patch content =
              (Some (join new_line_v2 ps), [str ''Found pattern v2 (newer extension version)'']))) \<and>
   (\<not> sublist old_line_v1 content \<and> \<not> sublist old_line_v2 content \<longrightarrow>
      try_patch content = (None, [])) \<and>
   borderless old_line_v1 \<and> borderless old_line_v2"
proof -
  have v1: "\<exists>ps. 2 \<le> length ps \<and> content = join old_line_v1 ps \<and>
            (\<forall>p \<in> set ps. \<not> sublist old_line_v1 p) \<and>
            try_patch content =
              (Some (join new_line_v1 ps), [str ''Found pattern v1 (older extension version)''])"
    if occ: "sublist old_line_v1 content"
  proof -
    from replace_pieces [OF old_line_v1_nonempty, of content new_line_v1] occ
    obtain ps where ps: "content = join old_line_v1 ps"
      "replace content old_line_v1 new_line_v1 = join new_line_v1 ps"
      "\<forall>p \<in> set ps. \<not> sublist old_line_v1 p" "2 \<le> length ps"
      by blast
    from occ ps(2) have "try_patch content =
        (Some (join new_line_v1 ps), [str ''Found pattern v1 (older extension version)''])"
      by (simp add: try_patch_def)
    with ps show ?thesis by blast
  qed
  have v2: "\<exists>ps. 2 \<le> length ps \<and> content = join old_line_v2 ps \<and>
            (\<forall>p \<in> set ps. \<not> sublist old_line_v2 p) \<and>
            try_patch content =
              (Some (join new_line_v2 ps), [str ''Found pattern v2 (newer extension version)''])"
    if no1: "\<not> sublist old_line_v1 content" and occ: "sublist old_line_v2 content"
  proof -
    from replace_pieces [OF old_line_v2_nonempty, of content new_line_v2] occ
    obtain ps where ps: "content = join old_line_v2 ps"
      "replace content old_line_v2 new_line_v2 = join new_line_v2 ps"
      "\<forall>p \<in> set ps. \<not> sublist old_line_v2 p" "2 \<le> length ps"
      by blast
    from no1 occ ps(2) have "try_patch content =
        (Some (join new_line_v2 ps), [str ''Found pattern v2 (newer extension version)''])"
      by (simp add: try_patch_def)
    with ps show ?thesis by blast
  qed
  have none: "try_patch content = (None, [])"
    if "\<not> sublist old_line_v1 content" "\<not> sublist old_line_v2 content"
    using that by (simp add: try_patch_def)
  from v1 v2 none borderless_v1 borderless_v2 show ?thesis by blast
qed

theorem try_patch_first_match_witness:
  "sublist old_line_v1 (old_line_v2 @ old_line_v1) \<and>
   (\<exists>ps. 2 \<le> length ps \<and> old_line_v2 @ old_line_v1 = join old_line_v1 ps \<and>
         (\<forall>p \<in> set ps. \<not> sublist old_line_v1 p) \<and>
         try_patch (old_line_v2 @ old_line_v1) =
           (Some (join new_line_v1 ps), [str ''Found pattern v1 (older extension version)'']))"
proof -
  have h: "sublist old_line_v1 (old_line_v2 @ old_line_v1)" by simp
  with try_patch_first_match [of "old_line_v2 @ old_line_v1"] show ?thesis by blast
qed

section \<open>A file that matches no rule\<close>

text \<open>
  C6. When the file is found and read and its content holds neither legacy literal nor the
  marker, the run writes nothing: the environment it leaves differs from the one it found
  in standard output only, so the file holds what it held. The run ends with status 1, and
  where standard output takes the lines, those printed are the "could not find" report
  (followed by the excerpt, if any).
\<close>

theorem mismatch_leaves_file_untouched:
  assumes "find_extension_path w = Some ext" "ext \<noteq> []" "isfile w (target_file ext)"
    and "read_text w Utf8 (target_file ext) = Inr content"
    and "\<not> sublist patched_marker content"
    and "\<not> sublist old_line_v1 content" "\<not> sublist old_line_v2 content"
  shows "fst (main w) = 1 \<and>
         snd (main w) = w\<lparr>stdout := stdout (snd (main w))\<rparr> \<and>
         read_text (snd (main w)) = read_text w \<and>
         (print_fault w = (\<lambda>line. None) \<longrightarrow>
            stdout (snd (main w)) = stdout w @ mismatch_lines @ relevant_section content)"
proof -
  have m: "main w = pattern_mismatch w content"
    by (rule main_mismatch [OF assms])
  have fr: "snd (main w) = w\<lparr>stdout := stdout (snd (main w))\<rparr>"
    unfolding m by (rule pattern_mismatch_frame)
  have "read_text (snd (main w)) = read_text (w\<lparr>stdout := stdout (snd (main w))\<rparr>)"
    by (rule arg_cong [OF fr])
  then have rd: "read_text (snd (main w)) = read_text w" by simp
  have "stdout (snd (main w)) = stdout w @ mismatch_lines @ relevant_section content"
    if "print_fault w = (\<lambda>line. None)"
    unfolding m by (simp add: pattern_mismatch_ok [OF that])
  with m fr rd show ?thesis by (simp add: pattern_mismatch_exit)
qed

theorem mismatch_leaves_file_untouched_witness:
  "\<not> sublist patched_marker (str ''window.onload'') \<and>
   \<not> sublist old_line_v1 (str ''window.onload'') \<and>
   \<not> sublist old_line_v2 (str ''window.onload'') \<and>
   fst (main (example_world (str ''window.onload''))) = 1 \<and>
   read_text (snd (main (example_world (str ''window.onload'')))) Utf8 file_path =
     Inr (str ''window.onload'') \<and>
   stdout (snd (main (example_world (str ''window.onload'')))) = mismatch_lines"
proof -
  let ?c = "str ''window.onload''"
  have m: "\<not> sublist patched_marker ?c"
    unfolding patched_marker_def sublist_str by code_simp
  have v1: "\<not> sublist old_line_v1 ?c"
    unfolding old_line_v1_def sublist_str by code_simp
  have v2: "\<not> sublist old_line_v2 ?c"
    unfolding old_line_v2_def sublist_str by code_simp
  have rs: "relevant_section ?c = []"
    unfolding relevant_section_def sublist_str by code_simp
  from mismatch_leaves_file_untouched [OF ex_find ex_ext_nonempty ex_isfile ex_read m v1 v2]
  have "fst (main (example_world ?c)) = 1"
    and "read_text (snd (main (example_world ?c))) = read_text (example_world ?c)"
    and "stdout (snd (main (example_world ?c))) =
           stdout (example_world ?c) @ mismatch_lines @ relevant_section ?c"
    by (simp_all add: ex_print)
  with m v1 v2 rs show ?thesis
    using ex_read [of ?c Utf8] by (simp add: ex_stdout ex_target)
qed



lemma mute_fields:
  "isfile (mute w) = isfile w" "read_text (mute w) = read_text w"
  "stdout (mute w) = stdout w"
  by (simp_all add: mute_def)

section \<open>Exit status\<close>

text \<open>
  C1, as stated, fails in two ways that are the script's design. The clause "exit 1 when the
  file is present but no old literal occurs" fails on a file that holds the marker and no
  legacy line: line 72 ends that run with status 0. And the clauses that promise status 0
  fail where standard output refuses the message: the exception of \<^verbatim>\<open>print\<close> is not
  handled there and ends the run with status 1.
\<close>

theorem exit_status_counterexample:
  "find_extension_path (example_world patched_marker) = Some example_ext \<and>
   isfile (example_world patched_marker) (target_file example_ext) \<and>
   read_text (example_world patched_marker) Utf8 (target_file example_ext) =
     Inr patched_marker \<and>
   \<not> sublist old_line_v1 patched_marker \<and> \<not> sublist old_line_v2 patched_marker \<and>
   fst (main (example_world patched_marker)) = 0 \<and>
   sublist patched_marker patched_marker \<and>
   fst (main (mute (example_world patched_marker))) = 1"
proof -
  let ?w = "example_world patched_marker"
  have v1: "\<not> sublist old_line_v1 patched_marker"
    unfolding old_line_v1_def patched_marker_def sublist_str by code_simp
  have v2: "\<not> sublist old_line_v2 patched_marker"
    unfolding old_line_v2_def patched_marker_def sublist_str by code_simp
  have m: "sublist patched_marker patched_marker" by simp
  have "main ?w = print_exit ?w already_patched 0"
    by (rule main_already [OF ex_find ex_ext_nonempty ex_isfile ex_read m])
  then have a: "fst (main ?w) = 0"
    by (simp add: print_exit_ok ex_print)
  have "main (mute ?w) = print_exit (mute ?w) already_patched 0"
    by (rule main_already [where ext = example_ext and content = patched_marker])
       (simp_all add: mute_find ex_find ex_ext_nonempty mute_fields ex_isfile ex_read)
  then have b: "fst (main (mute ?w)) = 1"
    by (simp add: print_exit_fault [OF mute_print])
  from v1 v2 a b show ?thesis
    by (simp add: ex_find ex_isfile ex_read)
qed

text \<open>
  C1, amended. Where standard output takes every line, the exit status of a run is:
  0 when no extension directory is found, when the file to patch is missing, and when the
  content read holds the marker; 1 when reading the file raises, when the content holds
  neither the marker nor a legacy literal, and when a rule matched but writing raises; and
  2 when a rule matched and the new content was written, which is the only way to 2.
  (A path that \<^verbatim>\<open>glob\<close> returns empty counts as not found, as \<^verbatim>\<open>not ext_path\<close> does.)
\<close>

theorem main_exit_status:
  assumes "print_fault w = (\<lambda>line. None)"
  shows "fst (main w) =
     (case find_extension_path w of
        None \<Rightarrow> 0
      | Some ext \<Rightarrow>
          if ext = [] \<or> \<not> isfile w (target_file ext) then 0
          else (case read_text w Utf8 (target_file ext) of
                  Inl e \<Rightarrow> 1
                | Inr content \<Rightarrow>
                    if sublist patched_marker content then 0
                    else if \<not> sublist old_line_v1 content \<and> \<not> sublist old_line_v2 content
                    then 1
                    else (case fst (try_patch content) of
                            None \<Rightarrow> 1
                          | Some new_content \<Rightarrow>
                              (case write_fault w Utf8 (target_file ext) new_content of
                                 None \<Rightarrow> 2
                               | Some fault \<Rightarrow> 1))))"
proof (cases "find_extension_path w")
  case None
  then have "main w = print_exit w (str ''Arduino extension not found. Skipping patch.'') 0"
    by (simp add: main_not_found)
  with None assms show ?thesis by (simp add: print_exit_ok)
next
  case (Some ext)
  show ?thesis
  proof (cases "ext = []")
    case True
    with Some have "main w =
        print_exit w (str ''Arduino extension not found. Skipping patch.'') 0"
      by (simp add: main_not_found)
    with Some True assms show ?thesis by (simp add: print_exit_ok)
  next
    case ne: False
    show ?thesis
    proof (cases "isfile w (target_file ext)")
      case False
      from main_target_missing [OF Some ne False] Some ne False assms
      show ?thesis by (simp add: print_exit_ok)
    next
      case isf: True
      show ?thesis
      proof (cases "read_text w Utf8 (target_file ext)")
        case (Inl e)
        from main_read_error [OF Some ne isf Inl] Some ne isf Inl assms
        show ?thesis by (simp add: print_exit_ok)
      next
        case (Inr content)
        show ?thesis
        proof (cases "sublist patched_marker content")
          case True
          from main_already [OF Some ne isf Inr True] Some ne isf Inr True assms
          show ?thesis by (simp add: print_exit_ok)
        next
          case nomark: False
          show ?thesis
          proof (cases "fst (try_patch content)")
            case None
            then have no: "\<not> sublist old_line_v1 content" "\<not> sublist old_line_v2 content"
              by (simp_all add: try_patch_None)
            from main_mismatch [OF Some ne isf Inr nomark no]
            have "fst (main w) = 1" by (simp add: pattern_mismatch_exit)
            with Some ne isf Inr nomark no show ?thesis by simp
          next
            case (Some nc)
            then have occ: "\<not> (\<not> sublist old_line_v1 content \<and> \<not> sublist old_line_v2 content)"
              using try_patch_None [of content] by simp
            note run = main_rule [OF \<open>find_extension_path w = Some ext\<close> ne isf Inr nomark Some assms]
            let ?w = "w\<lparr>stdout := stdout w @ snd (try_patch content)\<rparr>"
            have "fst (main w) =
              (case write_fault w Utf8 (target_file ext) nc of None \<Rightarrow> 2 | Some fault \<Rightarrow> 1)"
            proof (cases "write_fault w Utf8 (target_file ext) nc")
              case None
              then have "write_fault ?w Utf8 (target_file ext) nc = None" by simp
              from write_back_ok [OF this] assms None run show ?thesis by simp
            next
              case (Some fault)
              obtain e r where "fault = (e, r)" by (cases fault)
              with Some have "write_fault ?w Utf8 (target_file ext) nc = Some (e, r)" by simp
              from write_back_fault [OF this] Some run show ?thesis by simp
            qed
            with \<open>find_extension_path w = Some ext\<close> ne isf Inr nomark Some occ
            show ?thesis by auto
          qed
        qed
      qed
    qed
  qed
qed

theorem main_exit_status_witness:
  "print_fault (example_world (str ''x'' @ old_line_v2 @ str ''y'')) = (\<lambda>line. None) \<and>
   fst (main (example_world (str ''x'' @ old_line_v2 @ str ''y''))) = 2"
proof -
  let ?c = "str ''x'' @ old_line_v2 @ str ''y''"
  have m: "\<not> sublist patched_marker ?c"
    unfolding patched_marker_def old_line_v2_def str_append sublist_str by code_simp
  have v2: "sublist old_line_v2 ?c" by (rule sublist_appendI)
  then have "fst (try_patch ?c) \<noteq> None"
    by (simp add: try_patch_None)
  then obtain nc where nc: "fst (try_patch ?c) = Some nc"
    by blast
  from main_exit_status [OF ex_print, of ?c] m v2 nc show ?thesis
    by (simp add: ex_find ex_ext_nonempty ex_isfile ex_read ex_write ex_print)
qed

section \<open>Locating the extension\<close>




section \<open>One run on a legacy file\<close>




section \<open>A single legacy line in boilerplate\<close>

text \<open>
  C5, as stated, lets the boilerplate be arbitrary. This fails when the boilerplate holds
  the legacy line once more: with nothing before the v1 line and a second v1 line after
  it (no marker, no v2 line), \<^verbatim>\<open>replace\<close> rewrites both, so the file does not hold the
  boilerplate with the one line replaced.
\<close>

theorem second_legacy_line_counterexample:
  "\<not> sublist patched_marker ([] @ old_line_v1 @ old_line_v1) \<and>
   \<not> sublist old_line_v2 ([] @ old_line_v1 @ old_line_v1) \<and>
   fst (main (example_world ([] @ old_line_v1 @ old_line_v1))) = 2 \<and>
   read_text (snd (main (example_world ([] @ old_line_v1 @ old_line_v1)))) Utf8
     (target_file example_ext) = Inr (new_line_v1 @ new_line_v1) \<and>
   new_line_v1 @ new_line_v1 \<noteq> [] @ new_line_v1 @ old_line_v1"
proof -
  let ?c = "old_line_v1 @ old_line_v1"
  have m: "\<not> sublist patched_marker ?c"
    unfolding patched_marker_def old_line_v1_def str_append sublist_str by code_simp
  have v2: "\<not> sublist old_line_v2 ?c"
    unfolding old_line_v2_def old_line_v1_def str_append sublist_str by code_simp
  have r0: "replace [] old_line_v1 new_line_v1 = []"
    by (rule replace_absent) (simp add: old_line_v1_nonempty)
  have r1: "replace (old_line_v1 @ []) old_line_v1 new_line_v1 =
              new_line_v1 @ replace [] old_line_v1 new_line_v1"
    by (rule replace_prefix_step [OF old_line_v1_nonempty])
  have r2: "replace ?c old_line_v1 new_line_v1 =
              new_line_v1 @ replace old_line_v1 old_line_v1 new_line_v1"
    by (rule replace_prefix_step [OF old_line_v1_nonempty])
  have rep: "replace ?c old_line_v1 new_line_v1 = new_line_v1 @ new_line_v1"
    using r0 r1 r2 by simp
  have nc: "fst (try_patch ?c) = Some (new_line_v1 @ new_line_v1)"
    using rep by (simp add: try_patch_def)
  note run = main_patched [OF ex_find ex_ext_nonempty ex_isfile ex_read m nc ex_print ex_write]
  have "new_line_v1 \<noteq> old_line_v1"
    by (simp add: new_line_v1_def old_line_v1_def str_eq_iff)
  with m v2 run(1,2) show ?thesis by simp
qed

text \<open>
  C5, amended. When the file is found and read, standard output takes every line and the
  file can be written: for content made of a v1 legacy line between two texts that do not
  hold that line, with neither the marker nor the v2 line in the content, the run leaves
  the file holding the two texts around the v1 replacement and exits with status 2; and
  the same with the v2 line, its replacement and the v1 line absent.
\<close>

theorem single_legacy_line_patched:
  assumes "find_extension_path w = Some ext" "ext \<noteq> []" "isfile w (target_file ext)"
    and "read_text w Utf8 (target_file ext) = Inr (pre @ old @ post)"
    and "(old = old_line_v1 \<and> new = new_line_v1 \<and> \<not> sublist old_line_v2 (pre @ old @ post)) \<or>
         (old = old_line_v2 \<and> new = new_line_v2 \<and> \<not> sublist old_line_v1 (pre @ old @ post))"
    and "\<not> sublist patched_marker (pre @ old @ post)"
    and "\<not> sublist old pre" "\<not> sublist old post"
    and "print_fault w = (\<lambda>line. None)"
    and "write_fault w Utf8 (target_file ext) (pre @ new @ post) = None"
  shows "fst (main w) = 2 \<and>
         read_text (snd (main w)) Utf8 (target_file ext) = Inr (pre @ new @ post)"
proof -
  have occ: "sublist old (pre @ old @ post)" by (rule sublist_appendI)
  have nc: "fst (try_patch (pre @ old @ post)) = Some (pre @ new @ post)"
  proof -
    from assms(5) consider
      (v1) "old = old_line_v1" "new = new_line_v1"
    | (v2) "old = old_line_v2" "new = new_line_v2" "\<not> sublist old_line_v1 (pre @ old @ post)"
      by blast
    then show ?thesis
    proof cases
      case v1
      have "replace (pre @ old @ post) old new = pre @ new @ post"
        unfolding v1
        by (rule replace_single [OF borderless_v1 old_line_v1_nonempty])
           (use assms(7,8) v1 in simp_all)
      with occ v1 show ?thesis by (simp add: try_patch_def)
    next
      case v2
      have "replace (pre @ old @ post) old new = pre @ new @ post"
        unfolding v2(1,2)
        by (rule replace_single [OF borderless_v2 old_line_v2_nonempty])
           (use assms(7,8) v2 in simp_all)
      with occ v2 show ?thesis by (simp add: try_patch_def)
    qed
  qed
  from main_patched(1,2) [OF assms(1-4) assms(6) nc assms(9,10)]
  show ?thesis by simp
qed

theorem single_legacy_line_patched_witness:
  "\<not> sublist old_line_v2 (str ''a;'' @ old_line_v1 @ str '';b'') \<and>
   \<not> sublist patched_marker (str ''a;'' @ old_line_v1 @ str '';b'') \<and>
   \<not> sublist old_line_v1 (str ''a;'') \<and> \<not> sublist old_line_v1 (str '';b'') \<and>
   fst (main (example_world (str ''a;'' @ old_line_v1 @ str '';b''))) = 2 \<and>
   read_text (snd (main (example_world (str ''a;'' @ old_line_v1 @ str '';b'')))) Utf8
     (target_file example_ext) = Inr (str ''a;'' @ new_line_v1 @ str '';b'')"
proof -
  let ?c = "str ''a;'' @ old_line_v1 @ str '';b''"
  have v2: "\<not> sublist old_line_v2 ?c"
    unfolding old_line_v2_def old_line_v1_def str_append sublist_str by code_simp
  have m: "\<not> sublist patched_marker ?c"
    unfolding patched_marker_def old_line_v1_def str_append sublist_str by code_simp
  have a: "\<not> sublist old_line_v1 (str ''a;'')"
    unfolding old_line_v1_def sublist_str by code_simp
  have b: "\<not> sublist old_line_v1 (str '';b'')"
    unfolding old_line_v1_def sublist_str by code_simp
  have h: "(old_line_v1 = old_line_v1 \<and> new_line_v1 = new_line_v1 \<and> \<not> sublist old_line_v2 ?c) \<or>
           (old_line_v1 = old_line_v2 \<and> new_line_v1 = new_line_v2 \<and> \<not> sublist old_line_v1 ?c)"
    using v2 by simp
  from single_legacy_line_patched
         [OF ex_find ex_ext_nonempty ex_isfile ex_read h m a b ex_print ex_write]
  show ?thesis using v2 m a b by simp
qed

section \<open>Running twice\<close>

lemma print_exit_code:
  "fst (print_exit w line code) = code \<or> fst (print_exit w line code) = 1"
  by (cases "print_fault w line") (simp_all add: print_exit_def print_def)

lemma main_writes_only_to_patch:
  "(fst (main w) \<noteq> 2 \<and> snd (main w) = w\<lparr>stdout := stdout (snd (main w))\<rparr>) \<or>
   (\<exists>ext content nc. find_extension_path w = Some ext \<and> ext \<noteq> [] \<and>
       isfile w (target_file ext) \<and> read_text w Utf8 (target_file ext) = Inr content \<and>
       \<not> sublist patched_marker content \<and> fst (try_patch content) = Some nc)"
proof -
  have pe: "fst (main w) \<noteq> 2 \<and> snd (main w) = w\<lparr>stdout := stdout (snd (main w))\<rparr>"
    if "main w = print_exit w line code" "code \<noteq> 2" for line code
    unfolding that(1)
    using print_exit_code [of w line code] print_exit_frame [of w line code] that(2)
    by auto
  show ?thesis
  proof (cases "truthy (find_extension_path w)")
    case False
    from pe [OF main_not_found [OF False]] show ?thesis by simp
  next
    case True
    then obtain ext where ext: "find_extension_path w = Some ext" "ext \<noteq> []"
      by (cases "find_extension_path w") auto
    show ?thesis
    proof (cases "isfile w (target_file ext)")
      case False
      from pe [OF main_target_missing [OF ext False]] show ?thesis by simp
    next
      case isf: True
      show ?thesis
      proof (cases "read_text w Utf8 (target_file ext)")
        case (Inl e)
        from pe [OF main_read_error [OF ext isf Inl]] show ?thesis by simp
      next
        case (Inr content)
        show ?thesis
        proof (cases "sublist patched_marker content")
          case True
          from pe [OF main_already [OF ext isf Inr True]] show ?thesis by simp
        next
          case nomark: False
          show ?thesis
          proof (cases "fst (try_patch content)")
            case None
            then have no: "\<not> sublist old_line_v1 content" "\<not> sublist old_line_v2 content"
              by (simp_all add: try_patch_None)
            have m: "main w = pattern_mismatch w content"
              by (rule main_mismatch [OF ext isf Inr nomark no])
            have "fst (main w) \<noteq> 2 \<and> snd (main w) = w\<lparr>stdout := stdout (snd (main w))\<rparr>"
              unfolding m using pattern_mismatch_frame [of w content]
              by (simp add: pattern_mismatch_exit)
            then show ?thesis by simp
          next
            case (Some nc)
            with ext isf Inr nomark show ?thesis by blast
          qed
        qed
      qed
    qed
  qed
qed

text \<open>
  C2, as stated, holds for every file content that on the second run the marker is found
  and the run reports "already patched". This fails on content that holds neither a legacy
  literal nor the marker: both runs end in the pattern-mismatch branch with status 1, and
  the second run does not print the "already patched" line.
\<close>

theorem second_run_counterexample:
  "\<not> sublist patched_marker (str ''x'') \<and>
   read_text (snd (main (example_world (str ''x'')))) Utf8 (target_file example_ext) =
     Inr (str ''x'') \<and>
   fst (main (snd (main (example_world (str ''x''))))) = 1 \<and>
   already_patched \<notin> set (stdout (snd (main (snd (main (example_world (str ''x'')))))))"
proof -
  let ?c = "str ''x''"
  let ?w = "example_world ?c"
  have m: "\<not> sublist patched_marker ?c"
    unfolding patched_marker_def sublist_str by code_simp
  have v1: "\<not> sublist old_line_v1 ?c"
    unfolding old_line_v1_def sublist_str by code_simp
  have v2: "\<not> sublist old_line_v2 ?c"
    unfolding old_line_v2_def sublist_str by code_simp
  have rs: "relevant_section ?c = []"
    unfolding relevant_section_def sublist_str by code_simp
  have "main ?w = pattern_mismatch ?w ?c"
    by (rule main_mismatch [OF ex_find ex_ext_nonempty ex_isfile ex_read m v1 v2])
  then have first: "main ?w = (1, ?w\<lparr>stdout := mismatch_lines\<rparr>)"
    by (simp add: pattern_mismatch_ok ex_print ex_stdout rs)
  let ?w1 = "?w\<lparr>stdout := mismatch_lines\<rparr>"
  have "main ?w1 = pattern_mismatch ?w1 ?c"
    by (rule main_mismatch [where ext = example_ext])
       (simp_all add: find_extension_path_stdout ex_find ex_ext_nonempty ex_isfile ex_read m v1 v2)
  then have second: "main ?w1 = (1, ?w1\<lparr>stdout := mismatch_lines @ mismatch_lines\<rparr>)"
    by (simp add: pattern_mismatch_ok ex_print rs)
  have "already_patched \<notin> set (mismatch_lines @ mismatch_lines)"
    by (simp add: already_patched_def mismatch_lines_def str_def)
  with first second m show ?thesis by (simp add: ex_read)
qed

text \<open>
  C2, amended. Where standard output takes every line and the file can be written, a
  second run right after a first one writes nothing: it leaves the environment of the
  first run as it is but for standard output, so two runs leave the file content one run
  leaves. When the first run patched the file (status 2), the second run finds the marker,
  prints "already patched" and exits with status 0.
\<close>

theorem second_run_writes_nothing:
  assumes "print_fault w = (\<lambda>line. None)"
    and "write_fault w Utf8 = (\<lambda>p c. None)"
  shows "snd (main (snd (main w))) =
           (snd (main w))\<lparr>stdout := stdout (snd (main (snd (main w))))\<rparr> \<and>
         read_text (snd (main (snd (main w)))) = read_text (snd (main w)) \<and>
         (fst (main w) = 2 \<longrightarrow>
            main (snd (main w)) =
              (0, (snd (main w))\<lparr>stdout := stdout (snd (main w)) @ [already_patched]\<rparr>))"
proof -
  let ?w1 = "snd (main w)"
  show ?thesis
  proof (cases "\<exists>ext content nc. find_extension_path w = Some ext \<and> ext \<noteq> [] \<and>
       isfile w (target_file ext) \<and> read_text w Utf8 (target_file ext) = Inr content \<and>
       \<not> sublist patched_marker content \<and> fst (try_patch content) = Some nc")
    case True
    then obtain ext content nc where h: "find_extension_path w = Some ext" "ext \<noteq> []"
      "isfile w (target_file ext)" "read_text w Utf8 (target_file ext) = Inr content"
      "\<not> sublist patched_marker content" "fst (try_patch content) = Some nc"
      by blast
    have wf: "write_fault w Utf8 (target_file ext) nc = None"
      using assms(2) by simp
    note run = main_patched [OF h assms(1) wf]
    have f1: "find_extension_path ?w1 = Some ext"
      unfolding run(3)
      by (simp add: find_extension_path_stdout find_extension_path_set_file h(1))
    have i1: "isfile ?w1 (target_file ext)"
      unfolding run(3) using h(3) by (simp add: set_file_def)
    have m1: "sublist patched_marker nc"
      by (rule try_patch_marker [OF h(6)])
    have p1: "print_fault ?w1 already_patched = None"
      unfolding run(3) using assms(1) by (simp add: set_file_def)
    have second: "main ?w1 = (0, ?w1\<lparr>stdout := stdout ?w1 @ [already_patched]\<rparr>)"
      unfolding main_already [OF f1 h(2) i1 run(2) m1]
      by (rule print_exit_ok [OF p1])
    show ?thesis by (simp add: second)
  next
    case False
    with main_writes_only_to_patch [of w]
    have fr: "fst (main w) \<noteq> 2" "?w1 = w\<lparr>stdout := stdout ?w1\<rparr>"
      by blast+
    obtain out where w1: "snd (main w) = w\<lparr>stdout := out\<rparr>"
      by (rule that [OF fr(2)])
    have "\<not> (\<exists>ext content nc. find_extension_path ?w1 = Some ext \<and> ext \<noteq> [] \<and>
       isfile ?w1 (target_file ext) \<and> read_text ?w1 Utf8 (target_file ext) = Inr content \<and>
       \<not> sublist patched_marker content \<and> fst (try_patch content) = Some nc)"
      unfolding w1 using False by (simp add: find_extension_path_stdout)
    with main_writes_only_to_patch [of ?w1]
    have fr2: "snd (main ?w1) = ?w1\<lparr>stdout := stdout (snd (main ?w1))\<rparr>"
      by blast
    have "read_text (?w1\<lparr>stdout := stdout (snd (main ?w1))\<rparr>) = read_text ?w1"
      by simp
    with fr2 have rd: "read_text (snd (main ?w1)) = read_text ?w1"
      by (rule ssubst)
    from fr2 rd fr(1) show ?thesis by blast
  qed
qed

theorem second_run_writes_nothing_witness:
  "print_fault (example_world old_line_v1) = (\<lambda>line. None) \<and>
   write_fault (example_world old_line_v1) Utf8 = (\<lambda>p c. None) \<and>
   fst (main (example_world old_line_v1)) = 2 \<and>
   main (snd (main (example_world old_line_v1))) =
     (0, (snd (main (example_world old_line_v1)))
           \<lparr>stdout := stdout (snd (main (example_world old_line_v1))) @ [already_patched]\<rparr>) \<and>
   read_text (snd (main (snd (main (example_world old_line_v1))))) =
     read_text (snd (main (example_world old_line_v1)))"
proof -
  let ?w = "example_world old_line_v1"
  have wf: "write_fault ?w Utf8 = (\<lambda>p c. None)"
    by (simp add: example_world_def)
  have "fst (try_patch old_line_v1) \<noteq> None"
    by (simp add: try_patch_None)
  then obtain nc where nc: "fst (try_patch old_line_v1) = Some nc" by blast
  have two: "fst (main ?w) = 2"
    by (rule main_patched(1)
          [OF ex_find ex_ext_nonempty ex_isfile ex_read marker_notin_old_v1 nc ex_print ex_write])
  from second_run_writes_nothing [OF ex_print wf] two wf
  show ?thesis by (simp add: ex_print)
qed

end
